theory Spec2Isabelle
  imports Main "HOL-Library.Multiset" "HOL-Library.Sublist"
begin

section \<open>Values, rows and tables\<close>

text \<open>
  The dashboard (\<^verbatim>\<open>src/app.py\<close>) keeps its conferences in a pandas DataFrame. A cell
  of that table is a null (\<^verbatim>\<open>NaN\<close> in an object or numeric column, \<^verbatim>\<open>NaT\<close> in a
  datetime column), a string, an integer or a timestamp. Strings are lists of
  \<^typ>\<open>char\<close>, read as code points 0..255; floating-point cells are not modelled.
\<close>

datatype cell =
    NaN
  | NaT
  | Text string
  | Number int
  | Timestamp nat nat nat nat nat nat

datatype error =
    KeyError string
  | ValueError string
  | ReaderError string

text \<open>Decimal rendering of a natural number, and left padding with zeros.\<close>

fun show_nat :: "nat \<Rightarrow> string" where
  "show_nat n =
     (if n < 10 then [''0123456789'' ! n]
      else show_nat (n div 10) @ [''0123456789'' ! (n mod 10)])"

declare show_nat.simps [simp del]

definition show_int :: "int \<Rightarrow> string" where
  "show_int i = (if i < 0 then ''-'' @ show_nat (nat (- i)) else show_nat (nat i))"

definition zfill :: "nat \<Rightarrow> string \<Rightarrow> string" where
  "zfill w s = replicate (w - length s) (CHR ''0'') @ s"

text \<open>
  \<^verbatim>\<open>str(value)\<close>: a string is itself, the nulls print as \<^verbatim>\<open>nan\<close> and \<^verbatim>\<open>NaT\<close>, an
  integer prints in decimal and a timestamp as \<^verbatim>\<open>YYYY-MM-DD HH:MM:SS\<close>.
\<close>

fun str_of :: "cell \<Rightarrow> string" where
  "str_of NaN = ''nan''"
| "str_of NaT = ''NaT''"
| "str_of (Text s) = s"
| "str_of (Number i) = show_int i"
| "str_of (Timestamp y mo d h mi s) =
     zfill 4 (show_nat y) @ ''-'' @ zfill 2 (show_nat mo) @ ''-'' @ zfill 2 (show_nat d) @ '' '' @
     zfill 2 (show_nat h) @ '':'' @ zfill 2 (show_nat mi) @ '':'' @ zfill 2 (show_nat s)"

text \<open>\<^verbatim>\<open>isnull\<close>, the test behind \<^verbatim>\<open>dropna\<close>.\<close>

fun is_null :: "cell \<Rightarrow> bool" where
  "is_null NaN = True"
| "is_null NaT = True"
| "is_null _ = False"

text \<open>
  A row is the association list of its column names and cells; \<^verbatim>\<open>row.get(key, default)\<close>
  reads a column and falls back to the default when the row has no such column.
\<close>

type_synonym row = "(string \<times> cell) list"

definition get :: "row \<Rightarrow> string \<Rightarrow> cell \<Rightarrow> cell" where
  "get r key dflt = (case map_of r key of None \<Rightarrow> dflt | Some v \<Rightarrow> v)"

text \<open>
  A DataFrame: its column names and its rows, each under its index label. A cell that a
  row does not hold for one of the frame's columns reads as \<^verbatim>\<open>NaN\<close>, as after
  \<^verbatim>\<open>pd.concat\<close> of frames with different columns.
\<close>

record dataframe =
  columns :: "string list"
  body :: "(nat \<times> row) list"

definition frame_index :: "dataframe \<Rightarrow> nat list" where
  "frame_index df = map fst (body df)"

definition cell_at :: "row \<Rightarrow> string \<Rightarrow> cell" where
  "cell_at r c = get r c NaN"

text \<open>\<^verbatim>\<open>df[column]\<close>: the labelled cells of one column, \<^verbatim>\<open>KeyError\<close> for an unknown column.\<close>

definition column_of :: "dataframe \<Rightarrow> string \<Rightarrow> error + (nat \<times> cell) list" where
  "column_of df c =
     (if c \<in> set (columns df) then Inr (map (\<lambda>(i, r). (i, cell_at r c)) (body df))
      else Inl (KeyError c))"

definition dropna :: "(nat \<times> cell) list \<Rightarrow> (nat \<times> cell) list" where
  "dropna s = filter (\<lambda>(i, v). \<not> is_null v) s"

section \<open>Identity key\<close>

text \<open>
  \<^verbatim>\<open>create_conference_id\<close> (app.py, lines 21-27): the name, the start date and the
  location, each through \<^verbatim>\<open>str\<close>, joined by a vertical bar.
\<close>

definition create_conference_id :: "row \<Rightarrow> string" where
  "create_conference_id r =
     (let conf_name = str_of (get r ''Conference Event'' (Text ''''));
          start_date = str_of (get r ''Start Date'' (Text ''''));
          location = str_of (get r ''Conference location'' (Text ''''))
      in conf_name @ ''|'' @ start_date @ ''|'' @ location)"

section \<open>Fuzzy search\<close>

text \<open>
  \<^verbatim>\<open>str.lower\<close> on code points 0..255: the ASCII capitals and the Latin-1 capitals
  (all of 192..222 but the multiplication sign 215) move up by 32.
\<close>

definition lower_char :: "char \<Rightarrow> char" where
  "lower_char c =
     (let n = (of_char c :: nat)
      in if (65 \<le> n \<and> n \<le> 90) \<or> (192 \<le> n \<and> n \<le> 222 \<and> n \<noteq> 215)
         then char_of (n + 32) else c)"

definition lower :: "string \<Rightarrow> string" where
  "lower s = map lower_char s"

text \<open>
  \<^verbatim>\<open>fuzzy_search\<close> (app.py, lines 99-123). Two library parts are parameters:
  \<^item> \<open>ratio\<close> is \<^verbatim>\<open>fuzz.partial_ratio\<close>, an integer score;
  \<^item> \<open>order\<close> is the iteration order of Python's built-in \<^verbatim>\<open>set\<close>: it maps the
    sequence of \<^verbatim>\<open>add\<close> calls made on the set to the list that \<^verbatim>\<open>list(...)\<close> returns.
    The language promises only that this list holds the added elements, each once
    (\<open>set_listing\<close>).

  The inner loop scores each non-null cell of one column and adds the labels that reach
  the threshold; the outer loop walks the columns and skips one without non-null cells.
\<close>

definition set_listing :: "(nat list \<Rightarrow> nat list) \<Rightarrow> bool" where
  "set_listing order = (\<forall>adds. set (order adds) = set adds \<and> distinct (order adds))"

fun scan_values ::
  "(string \<Rightarrow> string \<Rightarrow> int) \<Rightarrow> string \<Rightarrow> int \<Rightarrow> (nat \<times> cell) list \<Rightarrow> nat list \<Rightarrow> nat list" where
  "scan_values ratio search_term threshold [] adds = adds"
| "scan_values ratio search_term threshold ((idx, v) # rest) adds =
     (let score = ratio (lower search_term) (lower (str_of v))
      in scan_values ratio search_term threshold rest
           (if score \<ge> threshold then adds @ [idx] else adds))"

fun scan_columns ::
  "(string \<Rightarrow> string \<Rightarrow> int) \<Rightarrow> string \<Rightarrow> dataframe \<Rightarrow> string list \<Rightarrow> int \<Rightarrow> nat list
     \<Rightarrow> error + nat list" where
  "scan_columns ratio search_term df [] threshold adds = Inr adds"
| "scan_columns ratio search_term df (c # cs) threshold adds =
     (case column_of df c of
        Inl e \<Rightarrow> Inl e
      | Inr s \<Rightarrow>
          (let valid_data = dropna s
           in if length valid_data = 0 then scan_columns ratio search_term df cs threshold adds
              else scan_columns ratio search_term df cs threshold
                     (scan_values ratio search_term threshold valid_data adds)))"

definition fuzzy_search ::
  "(nat list \<Rightarrow> nat list) \<Rightarrow> (string \<Rightarrow> string \<Rightarrow> int) \<Rightarrow> string \<Rightarrow> dataframe \<Rightarrow> string list \<Rightarrow> int
     \<Rightarrow> error + nat list" where
  "fuzzy_search order ratio search_term df cols threshold =
     (if search_term = [] then Inr (frame_index df)
      else (case scan_columns ratio search_term df cols threshold [] of
              Inl e \<Rightarrow> Inl e
            | Inr adds \<Rightarrow> Inr (order adds)))"

section \<open>Loading the workbook\<close>

text \<open>
  \<^verbatim>\<open>load_conference_data\<close> (app.py, lines 71-96). The workbook file is its bytes, or
  absent. The spreadsheet reader (\<^verbatim>\<open>pd.ExcelFile\<close>, \<^verbatim>\<open>pd.read_excel\<close>) is the
  parameter \<open>reader\<close>: it yields the sheets in workbook order, each as the frame
  \<^verbatim>\<open>read_excel\<close> returns, or \<open>None\<close> when the bytes are not a readable workbook and the
  library raises. \<^verbatim>\<open>pd.to_datetime(..., errors='coerce')\<close> is the parameter
  \<open>to_datetime\<close> on cells. The function returns its value, or the exception that leaves
  it, together with the messages shown through \<^verbatim>\<open>st.error\<close>.
\<close>

fun put :: "row \<Rightarrow> string \<Rightarrow> cell \<Rightarrow> row" where
  "put [] c v = [(c, v)]"
| "put ((k, x) # r) c v = (if k = c then (k, v) # r else (k, x) # put r c v)"

text \<open>\<^verbatim>\<open>df[c] = ...\<close> with one value per row, computed from the row.\<close>

definition set_column :: "dataframe \<Rightarrow> string \<Rightarrow> (row \<Rightarrow> cell) \<Rightarrow> dataframe" where
  "set_column df c f =
     \<lparr>columns = (if c \<in> set (columns df) then columns df else columns df @ [c]),
      body = map (\<lambda>(i, r). (i, put r c (f r))) (body df)\<rparr>"

text \<open>
  \<^verbatim>\<open>pd.concat(frames, ignore_index=True)\<close>: the columns in order of first appearance,
  every row holding a cell for each of them, the rows relabelled from 0. An empty list
  of frames raises \<^verbatim>\<open>ValueError\<close>.
\<close>

definition reindex_row :: "string list \<Rightarrow> row \<Rightarrow> row" where
  "reindex_row cols r = map (\<lambda>c. (c, cell_at r c)) cols"

fun first_seen :: "'a list \<Rightarrow> 'a list" where
  "first_seen [] = []"
| "first_seen (x # xs) = x # removeAll x (first_seen xs)"

definition concat_frames :: "dataframe list \<Rightarrow> error + dataframe" where
  "concat_frames frames =
     (if frames = [] then Inl (ValueError ''No objects to concatenate'')
      else (let cols = first_seen (concat (map columns frames));
                rows = map (\<lambda>(i, r). reindex_row cols r) (concat (map body frames))
            in Inr \<lparr>columns = cols, body = zip [0 ..< length rows] rows\<rparr>))"

definition empty_frame :: dataframe where
  "empty_frame = \<lparr>columns = [], body = []\<rparr>"

definition convert_dates ::
  "(cell \<Rightarrow> cell) \<Rightarrow> dataframe \<Rightarrow> string \<Rightarrow> error + dataframe" where
  "convert_dates to_datetime df c =
     (if c \<in> set (columns df) then Inr (set_column df c (\<lambda>r. to_datetime (cell_at r c)))
      else Inl (KeyError c))"

definition load_conference_data ::
  "(string \<Rightarrow> (string \<times> dataframe) list option) \<Rightarrow> (cell \<Rightarrow> cell) \<Rightarrow> string option
     \<Rightarrow> (error + dataframe) \<times> string list" where
  "load_conference_data reader to_datetime excel_file =
     (case excel_file of
        None \<Rightarrow> (Inr empty_frame, [''Conference list file not found: conference_list.xlsx''])
      | Some bytes \<Rightarrow>
          (case reader bytes of
             None \<Rightarrow> (Inl (ReaderError ''not a workbook''), [])
           | Some sheets \<Rightarrow>
               (let all_data =
                      map (\<lambda>(sheet_name, df). set_column df ''Year'' (\<lambda>r. Text sheet_name))
                        (filter (\<lambda>(sheet_name, df). sheet_name \<noteq> ''Header'') sheets)
                in (case concat_frames all_data of
                      Inl e \<Rightarrow> (Inl e, [])
                    | Inr combined \<Rightarrow>
                        (case convert_dates to_datetime combined ''Start Date'' of
                           Inl e \<Rightarrow> (Inl e, [])
                         | Inr with_start \<Rightarrow>
                             (case convert_dates to_datetime with_start ''End Date'' of
                                Inl e \<Rightarrow> (Inl e, [])
                              | Inr with_end \<Rightarrow>
                                  (Inr (set_column with_end ''conference_id''
                                          (\<lambda>r. Text (create_conference_id r))), [])))))))"

section \<open>The filter pipeline of the search tab\<close>

text \<open>
  \<^verbatim>\<open>frame.loc[labels]\<close>: for each label in turn the rows under it, \<^verbatim>\<open>KeyError\<close> for a
  label no row has. \<^verbatim>\<open>frame[frame[c] == s]\<close>: the rows whose cell in column \<open>c\<close> is
  the string \<open>s\<close>, in frame order.
\<close>

fun loc_rows :: "(nat \<times> row) list \<Rightarrow> nat list \<Rightarrow> error + (nat \<times> row) list" where
  "loc_rows b [] = Inr []"
| "loc_rows b (l # ls) =
     (case filter (\<lambda>(i, r). i = l) b of
        [] \<Rightarrow> Inl (KeyError (show_nat l))
      | hit # hits \<Rightarrow>
          (case loc_rows b ls of
             Inl e \<Rightarrow> Inl e
           | Inr rest \<Rightarrow> Inr ((hit # hits) @ rest)))"

definition loc :: "dataframe \<Rightarrow> nat list \<Rightarrow> error + dataframe" where
  "loc df labels =
     (case loc_rows (body df) labels of
        Inl e \<Rightarrow> Inl e
      | Inr rows \<Rightarrow> Inr (df\<lparr>body := rows\<rparr>))"

definition select_eq :: "dataframe \<Rightarrow> string \<Rightarrow> string \<Rightarrow> error + dataframe" where
  "select_eq df c s =
     (if c \<in> set (columns df)
      then Inr (df\<lparr>body := filter (\<lambda>(i, r). cell_at r c = Text s) (body df)\<rparr>)
      else Inl (KeyError c))"

text \<open>
  Two notions for stating what the pipeline returns: the rows of a frame listed label
  by label, the rows of one label in frame order; and the test of the country and year
  steps on a row.
\<close>

definition rows_by_label :: "(nat \<times> row) list \<Rightarrow> nat list \<Rightarrow> (nat \<times> row) list" where
  "rows_by_label b labels = concat (map (\<lambda>l. filter (\<lambda>(i, r). i = l) b) labels)"

definition passes :: "string \<Rightarrow> string \<Rightarrow> nat \<times> row \<Rightarrow> bool" where
  "passes country year =
     (\<lambda>(i, r). (country = ''All'' \<or> cell_at r ''Country'' = Text country) \<and>
               (year = ''All'' \<or> cell_at r ''Year'' = Text year))"

text \<open>
  The three steps of tab1 (app.py, lines 201-217) on the loaded table: the fuzzy search
  when the search text is not empty, then the country and the year unless they are
  \<^verbatim>\<open>All\<close>.
\<close>

definition filtered_df ::
  "(nat list \<Rightarrow> nat list) \<Rightarrow> (string \<Rightarrow> string \<Rightarrow> int) \<Rightarrow> dataframe \<Rightarrow> string \<Rightarrow> int \<Rightarrow> string \<Rightarrow> string
     \<Rightarrow> error + dataframe" where
  "filtered_df order ratio df search_text fuzzy_threshold selected_country selected_year =
     (case (if search_text \<noteq> []
            then (case fuzzy_search order ratio search_text df
                         [''Conference Event'', ''Conference location''] fuzzy_threshold of
                    Inl e \<Rightarrow> Inl e
                  | Inr matching_indices \<Rightarrow> loc df matching_indices)
            else Inr df) of
        Inl e \<Rightarrow> Inl e
      | Inr searched \<Rightarrow>
          (case (if selected_country \<noteq> ''All'' then select_eq searched ''Country'' selected_country
                 else Inr searched) of
             Inl e \<Rightarrow> Inl e
           | Inr by_country \<Rightarrow>
               (if selected_year \<noteq> ''All'' then select_eq by_country ''Year'' selected_year
                else Inr by_country)))"

section \<open>The pinned set and its file\<close>

text \<open>
  The keys of the pinned set and the text of its file are Python strings: lists of code
  points, each below \<open>0x110000\<close>. The table's strings, lists of 8-bit characters, are
  read as the code points of their characters.
\<close>

type_synonym pystr = "nat list"

definition code_points :: "string \<Rightarrow> pystr" where
  "code_points s = map of_char s"

definition valid_str :: "pystr \<Rightarrow> bool" where
  "valid_str s = list_all (\<lambda>c. c < 1114112) s"

text \<open>
  \<^verbatim>\<open>json.dump\<close> of a list of strings with the default settings: the items between
  brackets, separated by a comma and a space; each string between double quotes
  (code point 34). With \<^verbatim>\<open>ensure_ascii\<close> the quote, the backslash (92) and every
  character outside the printable ASCII range 32..126 are written as escapes: the short
  escapes for backspace, form feed, newline, carriage return and tab; a backslash, the
  letter u (117) and four lower-case hexadecimal digits for the other code points below
  \<open>0x10000\<close>; and two such escapes, a high and a low surrogate, for a code point from
  \<open>0x10000\<close> on.
\<close>

definition hex_digit :: "nat \<Rightarrow> nat" where
  "hex_digit d = (if d < 10 then 48 + d else 87 + d)"

definition hex4 :: "nat \<Rightarrow> pystr" where
  "hex4 n =
     [hex_digit (n div 4096 mod 16), hex_digit (n div 256 mod 16),
      hex_digit (n div 16 mod 16), hex_digit (n mod 16)]"

definition u_escape :: "nat \<Rightarrow> pystr" where
  "u_escape n = 92 # 117 # hex4 n"

definition encode_char :: "nat \<Rightarrow> pystr" where
  "encode_char n =
     (if n = 34 then [92, 34]
      else if n = 92 then [92, 92]
      else if n = 8 then [92, 98]
      else if n = 12 then [92, 102]
      else if n = 10 then [92, 110]
      else if n = 13 then [92, 114]
      else if n = 9 then [92, 116]
      else if 32 \<le> n \<and> n \<le> 126 then [n]
      else if n < 65536 then u_escape n
      else u_escape (55296 + (n - 65536) div 1024 mod 1024) @
           u_escape (56320 + (n - 65536) mod 1024))"

definition encode_string :: "pystr \<Rightarrow> pystr" where
  "encode_string s = 34 # concat (map encode_char s) @ [34]"

fun join_items :: "pystr list \<Rightarrow> pystr" where
  "join_items [] = []"
| "join_items [x] = x"
| "join_items (x # y # ys) = x @ [44, 32] @ join_items (y # ys)"

definition json_dumps :: "pystr list \<Rightarrow> pystr" where
  "json_dumps xs = [91] @ join_items (map encode_string xs) @ [93]"

text \<open>
  The string scanner of \<^verbatim>\<open>json.load\<close> (\<^verbatim>\<open>scanstring\<close>, strict): it reads a string
  body after its opening quote and returns the decoded string with the rest of the
  input. It ends at the closing quote, refuses a raw control character, and decodes the
  backslash escapes. After a \<open>\u\<close> escape that gives a high surrogate it looks ahead:
  when another \<open>\u\<close> escape follows and gives a low surrogate, the two are joined into
  one code point. \<open>None\<close> is the \<^verbatim>\<open>JSONDecodeError\<close>.
\<close>

definition hex_val :: "nat \<Rightarrow> nat option" where
  "hex_val c =
     (if 48 \<le> c \<and> c \<le> 57 then Some (c - 48)
      else if 97 \<le> c \<and> c \<le> 102 then Some (c - 87)
      else if 65 \<le> c \<and> c \<le> 70 then Some (c - 55)
      else None)"

definition decode_uXXXX :: "nat \<Rightarrow> nat \<Rightarrow> nat \<Rightarrow> nat \<Rightarrow> nat option" where
  "decode_uXXXX a b c d =
     (case (hex_val a, hex_val b, hex_val c, hex_val d) of
        (Some x3, Some x2, Some x1, Some x0) \<Rightarrow> Some (((x3 * 16 + x2) * 16 + x1) * 16 + x0)
      | _ \<Rightarrow> None)"

definition backslash :: "nat \<Rightarrow> nat option" where
  "backslash e =
     (if e = 34 then Some 34
      else if e = 92 then Some 92
      else if e = 47 then Some 47
      else if e = 98 then Some 8
      else if e = 102 then Some 12
      else if e = 110 then Some 10
      else if e = 114 then Some 13
      else if e = 116 then Some 9
      else None)"

definition is_high :: "nat \<Rightarrow> bool" where
  "is_high u = (55296 \<le> u \<and> u \<le> 56319)"

definition is_low :: "nat \<Rightarrow> bool" where
  "is_low u = (56320 \<le> u \<and> u \<le> 57343)"

definition join_surrogates :: "nat \<Rightarrow> nat \<Rightarrow> nat" where
  "join_surrogates u u2 = 65536 + ((u - 55296) * 1024 + (u2 - 56320))"

definition prepend :: "nat \<Rightarrow> (pystr \<times> pystr) option \<Rightarrow> (pystr \<times> pystr) option" where
  "prepend c res = (case res of None \<Rightarrow> None | Some (s, rest) \<Rightarrow> Some (c # s, rest))"

text \<open>
  What follows a high surrogate: a \<open>\u\<close> escape of a low surrogate, with the input
  after it; a \<open>\u\<close> with digits that are not hexadecimal, on which the scanner raises;
  or anything else, and then the high surrogate stands alone.
\<close>

datatype ahead = Low_surrogate nat pystr | Bad_escape | No_pair

definition look_ahead :: "pystr \<Rightarrow> ahead" where
  "look_ahead s =
     (if 6 \<le> length s \<and> s ! 0 = 92 \<and> s ! 1 = 117 then
        (case decode_uXXXX (s ! 2) (s ! 3) (s ! 4) (s ! 5) of
           None \<Rightarrow> Bad_escape
         | Some u2 \<Rightarrow> if is_low u2 then Low_surrogate u2 (drop 6 s) else No_pair)
      else No_pair)"

lemma look_ahead_shorter: "look_ahead s = Low_surrogate u2 rest' \<Longrightarrow> length rest' < length s"
  by (auto simp: look_ahead_def split: if_splits option.splits)

function scanstring :: "pystr \<Rightarrow> (pystr \<times> pystr) option" where
  "scanstring [] = None"
| "scanstring (c # cs) =
     (if c = 34 then Some ([], cs)
      else if c = 92 then
        (case cs of
           [] \<Rightarrow> None
         | e # es \<Rightarrow>
             (if e = 117 then
                (case es of
                   h3 # h2 # h1 # h0 # rest \<Rightarrow>
                     (case decode_uXXXX h3 h2 h1 h0 of
                        None \<Rightarrow> None
                      | Some u \<Rightarrow>
                          (if is_high u then
                             (case look_ahead rest of
                                Low_surrogate u2 rest' \<Rightarrow>
                                  prepend (join_surrogates u u2) (scanstring rest')
                              | Bad_escape \<Rightarrow> None
                              | No_pair \<Rightarrow> prepend u (scanstring rest))
                           else prepend u (scanstring rest)))
                 | _ \<Rightarrow> None)
              else (case backslash e of
                      None \<Rightarrow> None
                    | Some ch \<Rightarrow> prepend ch (scanstring es))))
      else if c < 32 then None
      else prepend c (scanstring cs))"
  by pat_completeness auto
termination
  by (relation "measure length") (auto dest: look_ahead_shorter)

definition is_ws :: "nat \<Rightarrow> bool" where
  "is_ws c = (c = 32 \<or> c = 9 \<or> c = 10 \<or> c = 13)"

definition skip_ws :: "pystr \<Rightarrow> pystr" where
  "skip_ws s = dropWhile is_ws s"

text \<open>
  The items of an array of strings: a string, then either the closing bracket (93) or a
  comma (44) and the remaining items. Each item consumes input, which is why the
  recursion ends.
\<close>

lemma prepend_Some:
  "prepend c res = Some (v, rest) \<Longrightarrow> \<exists>v'. res = Some (v', rest) \<and> v = c # v'"
  by (auto simp: prepend_def split: option.splits)

lemma scanstring_shorter: "scanstring cs = Some (v, rest) \<Longrightarrow> length rest < length cs"
proof (induction cs arbitrary: v rest rule: scanstring.induct)
  case 1
  then show ?case by simp
next
  case (2 c cs)
  show ?case
  proof (cases "c = 34")
    case True
    then show ?thesis using "2.prems" by simp
  next
    case quote: False
    show ?thesis
    proof (cases "c = 92")
      case False
      then have ctl: "\<not> c < 32"
        using "2.prems" quote by (auto split: if_splits)
      obtain v' where "scanstring cs = Some (v', rest)"
        using "2.prems" quote False ctl by (auto dest!: prepend_Some)
      then have "length rest < length cs"
        by (rule "2.IH"(5)[OF quote False ctl])
      then show ?thesis by simp
    next
      case True
      then obtain e es where cs: "cs = e # es"
        using "2.prems" by (cases cs) auto
      show ?thesis
      proof (cases "e = 117")
        case False
        then obtain ch v' where ch: "backslash e = Some ch" and sc: "scanstring es = Some (v', rest)"
          using "2.prems" True cs by (auto split: option.splits dest!: prepend_Some)
        have "length rest < length es"
          by (rule "2.IH"(4)[OF quote True cs False ch sc])
        then show ?thesis using cs by simp
      next
        case u: True
        then obtain h3 t3 where e3: "es = h3 # t3"
          using "2.prems" True cs by (cases es) auto
        obtain h2 t2 where e2: "t3 = h2 # t2"
          using "2.prems" True cs u e3 by (cases t3) auto
        obtain h1 t1 where e1: "t2 = h1 # t1"
          using "2.prems" True cs u e3 e2 by (cases t2) auto
        obtain h0 tl4 where e0: "t1 = h0 # tl4"
          using "2.prems" True cs u e3 e2 e1 by (cases t1) auto
        obtain w where w: "decode_uXXXX h3 h2 h1 h0 = Some w"
          using "2.prems" True cs u e3 e2 e1 e0 by (auto split: option.splits)
        show ?thesis
        proof (cases "is_high w")
          case False
          then obtain v' where sc: "scanstring tl4 = Some (v', rest)"
            using "2.prems" True cs u e3 e2 e1 e0 w by (auto dest!: prepend_Some)
          have "length rest < length tl4"
            by (rule "2.IH"(3)[OF quote True cs u e3 e2 e1 e0 w False sc])
          then show ?thesis using cs e3 e2 e1 e0 by simp
        next
          case high: True
          show ?thesis
          proof (cases "look_ahead tl4")
            case (Low_surrogate u2 rest')
            then obtain v' where sc: "scanstring rest' = Some (v', rest)"
              using "2.prems" True cs u e3 e2 e1 e0 w high by (auto dest!: prepend_Some)
            have "length rest < length rest'"
              by (rule "2.IH"(1)[OF quote True cs u e3 e2 e1 e0 w high Low_surrogate sc])
            then show ?thesis
              using look_ahead_shorter[OF Low_surrogate] cs e3 e2 e1 e0 by simp
          next
            case Bad_escape
            then show ?thesis using "2.prems" True cs u e3 e2 e1 e0 w high by simp
          next
            case No_pair
            then obtain v' where sc: "scanstring tl4 = Some (v', rest)"
              using "2.prems" True cs u e3 e2 e1 e0 w high by (auto dest!: prepend_Some)
            have "length rest < length tl4"
              by (rule "2.IH"(2)[OF quote True cs u e3 e2 e1 e0 w high No_pair sc])
            then show ?thesis using cs e3 e2 e1 e0 by simp
          qed
        qed
      qed
    qed
  qed
qed

lemma skip_ws_length: "length (skip_ws s) \<le> length s"
  by (simp add: skip_ws_def length_dropWhile_le)

function parse_items :: "pystr \<Rightarrow> (pystr list \<times> pystr) option" where
  "parse_items s =
     (case s of
        [] \<Rightarrow> None
      | c # cs \<Rightarrow>
          (if c = 34 then
             (case scanstring cs of
                None \<Rightarrow> None
              | Some (v, rest) \<Rightarrow>
                  (case skip_ws rest of
                     [] \<Rightarrow> None
                   | d # ds \<Rightarrow>
                       (if d = 93 then Some ([v], ds)
                        else if d = 44 then
                          (case parse_items (skip_ws ds) of
                             None \<Rightarrow> None
                           | Some (vs, r) \<Rightarrow> Some (v # vs, r))
                        else None)))
           else None))"
  by pat_completeness auto
termination
proof (relation "measure length", goal_cases)
  case 1
  then show ?case by simp
next
  case (2 s c cs x2 v rest d ds)
  have "length (skip_ws ds) \<le> length ds" by (rule skip_ws_length)
  moreover have "length (d # ds) \<le> length rest" using 2 skip_ws_length[of rest] by metis
  moreover have "length rest < length cs" using 2 scanstring_shorter by metis
  ultimately show ?case using 2 by simp
qed

declare parse_items.simps [simp del]

text \<open>
  A document that is an array of strings, with the whitespace the decoder skips: the
  strings it holds, or \<open>None\<close> for any other text.
\<close>

definition string_array :: "pystr \<Rightarrow> pystr list option" where
  "string_array s =
     (case skip_ws s of
        [] \<Rightarrow> None
      | c # cs \<Rightarrow>
          (if c = 91 then
             (case skip_ws cs of
                [] \<Rightarrow> None
              | d # ds \<Rightarrow>
                  (if d = 93 then (if skip_ws ds = [] then Some [] else None)
                   else (case parse_items (d # ds) of
                           None \<Rightarrow> None
                         | Some (vs, r) \<Rightarrow> if skip_ws r = [] then Some vs else None)))
           else None))"

text \<open>
  \<^verbatim>\<open>set(json.load(f))\<close> on the text of the file. The result is a set of strings, or a
  set with members that are not strings (numbers, booleans, null), or an exception with
  its message \<^verbatim>\<open>str(e)\<close>. An array of strings gives the set of its items, and the empty
  text raises \<^verbatim>\<open>Expecting value\<close>. For every other text the json library is the
  parameter \<open>other\<close>: the keys of an object, the characters of a string, an array with
  other members, or the error raised.
\<close>

datatype loaded = Keys "pystr set" | Mixed_members

definition set_of_json :: "(pystr \<Rightarrow> string + loaded) \<Rightarrow> pystr \<Rightarrow> string + loaded" where
  "set_of_json other doc =
     (case string_array doc of
        Some items \<Rightarrow> Inr (Keys (set items))
      | None \<Rightarrow>
          (if doc = [] then Inl ''Expecting value: line 1 column 1 (char 0)''
           else other doc))"

text \<open>
  What the operating system does to a file operation is an input of the model: opening
  succeeds or raises, and a write either completes or breaks off after some characters
  have reached the file.
\<close>

datatype open_outcome = Opened | Open_fails string

datatype write_outcome = Written | Write_fails nat string

text \<open>
  \<^verbatim>\<open>save_pinned_conferences\<close> (app.py, lines 30-38). \<open>listing\<close> is \<^verbatim>\<open>list(pinned_data)\<close>,
  the iteration order of the set of strings. Opening with mode \<^verbatim>\<open>'w'\<close> empties the file
  before anything is written. The result is the returned flag, the file afterwards and
  the messages shown through \<^verbatim>\<open>st.error\<close>.
\<close>

definition save_pinned_conferences ::
  "(pystr set \<Rightarrow> pystr list) \<Rightarrow> open_outcome \<Rightarrow> write_outcome \<Rightarrow> pystr set \<Rightarrow> pystr option
     \<Rightarrow> bool \<times> pystr option \<times> string list" where
  "save_pinned_conferences listing opening writing pinned_data pinned_file =
     (case opening of
        Open_fails msg \<Rightarrow> (False, pinned_file, [''Error saving pinned conferences: '' @ msg])
      | Opened \<Rightarrow>
          (case writing of
             Write_fails n msg \<Rightarrow>
               (False, Some (take n (json_dumps (listing pinned_data))),
                [''Error saving pinned conferences: '' @ msg])
           | Written \<Rightarrow> (True, Some (json_dumps (listing pinned_data)), [])))"

text \<open>
  \<^verbatim>\<open>load_pinned_conferences\<close> (app.py, lines 41-50): the empty set when the file is
  absent; the empty set and a message \<^verbatim>\<open>Error loading pinned conferences: \<close> followed by
  \<^verbatim>\<open>str(e)\<close> when opening or decoding raises; else the set decoded.
\<close>

definition load_pinned_conferences ::
  "(pystr \<Rightarrow> string + loaded) \<Rightarrow> open_outcome \<Rightarrow> pystr option \<Rightarrow> loaded \<times> string list" where
  "load_pinned_conferences other opening pinned_file =
     (case pinned_file of
        None \<Rightarrow> (Keys {}, [])
      | Some doc \<Rightarrow>
          (case opening of
             Open_fails msg \<Rightarrow> (Keys {}, [''Error loading pinned conferences: '' @ msg])
           | Opened \<Rightarrow>
               (case set_of_json other doc of
                  Inl msg \<Rightarrow> (Keys {}, [''Error loading pinned conferences: '' @ msg])
                | Inr result \<Rightarrow> (result, []))))"

text \<open>
  A string round-trips through the encoder and the scanner when no high surrogate in it
  is followed at once by a low surrogate: written as two escapes in a row, such a pair is
  read back as one code point.
\<close>

fun no_surrogate_pair :: "pystr \<Rightarrow> bool" where
  "no_surrogate_pair (a # b # cs) = (\<not> (is_high a \<and> is_low b) \<and> no_surrogate_pair (b # cs))"
| "no_surrogate_pair _ = True"

definition round_trips :: "pystr \<Rightarrow> bool" where
  "round_trips s = (valid_str s \<and> no_surrogate_pair s)"

section \<open>Reconciling the grid with the pinned set\<close>

text \<open>
  The end of tab1 (app.py, lines 223-273), reached only when the filtered frame is not
  empty (\<^verbatim>\<open>DataFrame.empty\<close>: no row or no column). Line 231 shows each visible row
  with a pin flag, its key being in the session's pinned set or not; \<open>edited_df\<close> is what
  the data editor returns, the label of each visible row with the state of its checkbox
  after the user's edits. The identity keys are the strings of column
  \<^verbatim>\<open>conference_id\<close>, as code points.
\<close>

definition frame_empty :: "dataframe \<Rightarrow> bool" where
  "frame_empty df = (columns df = [] \<or> body df = [])"

definition key_of :: "row \<Rightarrow> pystr" where
  "key_of r = code_points (str_of (cell_at r ''conference_id''))"

definition pin_flags :: "pystr set \<Rightarrow> dataframe \<Rightarrow> (nat \<times> bool) list" where
  "pin_flags pinned_conferences display_df =
     map (\<lambda>(i, r). (i, key_of r \<in> pinned_conferences)) (body display_df)"

definition current_pinned :: "dataframe \<Rightarrow> (nat \<times> bool) list \<Rightarrow> error + pystr set" where
  "current_pinned display_df edited_df =
     (if ''conference_id'' \<notin> set (columns display_df) then Inl (KeyError ''conference_id'')
      else (case loc_rows (body display_df) (map fst (filter snd edited_df)) of
              Inl e \<Rightarrow> Inl e
            | Inr rows \<Rightarrow>
                Inr (set (map (\<lambda>(i, r). key_of r) rows))))"

text \<open>
  Lines 271-273: when the set just computed differs from the session's pinned set, it
  replaces that set and is saved. The result is the session's pinned set, the pinned
  file and the messages shown.
\<close>

definition reconcile ::
  "(pystr set \<Rightarrow> pystr list) \<Rightarrow> open_outcome \<Rightarrow> write_outcome \<Rightarrow> pystr set \<Rightarrow> pystr option
     \<Rightarrow> dataframe \<Rightarrow> (nat \<times> bool) list \<Rightarrow> error + pystr set \<times> pystr option \<times> string list" where
  "reconcile listing opening writing pinned_conferences pinned_file display_df edited_df =
     (if frame_empty display_df then Inr (pinned_conferences, pinned_file, [])
      else (case current_pinned display_df edited_df of
              Inl e \<Rightarrow> Inl e
            | Inr now \<Rightarrow>
                (if now \<noteq> pinned_conferences
                 then (case save_pinned_conferences listing opening writing now pinned_file of
                         (saved, file, shown) \<Rightarrow> Inr (now, file, shown))
                 else Inr (pinned_conferences, pinned_file, []))))"

section \<open>Fetching the workbook\<close>

text \<open>
  \<^verbatim>\<open>download_latest_excel\<close> (app.py, lines 60-67). \<^verbatim>\<open>requests.get\<close> raises (a network
  error, with its message) or returns a response with a status code and a body; the
  status code is not read. The result is the returned pair and the local file afterwards.
\<close>

datatype response = Response nat string

definition download_latest_excel ::
  "string + response \<Rightarrow> open_outcome \<Rightarrow> write_outcome \<Rightarrow> string option
     \<Rightarrow> (bool \<times> string) \<times> string option" where
  "download_latest_excel fetched opening writing excel_file =
     (case fetched of
        Inl msg \<Rightarrow> ((False, ''Error downloading file: '' @ msg), excel_file)
      | Inr (Response status_code content) \<Rightarrow>
          (case opening of
             Open_fails msg \<Rightarrow> ((False, ''Error downloading file: '' @ msg), excel_file)
           | Opened \<Rightarrow>
               (case writing of
                  Write_fails n msg \<Rightarrow>
                    ((False, ''Error downloading file: '' @ msg), Some (take n content))
                | Written \<Rightarrow>
                    ((True, ''Successfully downloaded the latest conference list!''),
                     Some content))))"

section \<open>Concrete instances for the closed examples\<close>

text \<open>
  An iteration order for a Python set of small non-negative integers. CPython hashes
  such an integer to itself, starts a set with a table of 8 slots, stores an element in
  slot \<open>hash mod 8\<close> when that slot is free, and iterates over the slots upwards. For up
  to four elements whose residues modulo 8 differ (no collision, no resizing) the order is
  therefore by residue: \<^verbatim>\<open>list({1, 8})\<close> is \<^verbatim>\<open>[8, 1]\<close>.
\<close>

definition slot_order :: "nat list \<Rightarrow> nat list" where
  "slot_order adds = sort_key (\<lambda>i. i mod 8) (remdups adds)"

text \<open>
  A scorer for the closed examples, in the place of \<^verbatim>\<open>fuzz.partial_ratio\<close>: 0 when a
  string is empty, 100 for equal strings, else the share of the longer string that their
  common prefix covers. On the strings used below it gives what \<^verbatim>\<open>partial_ratio\<close>
  gives: 100 for \<^verbatim>\<open>aa\<close> against \<^verbatim>\<open>aa\<close>, 0 for strings without a common character,
  50 for \<^verbatim>\<open>ab\<close> against \<^verbatim>\<open>ax\<close>.
\<close>

fun common_prefix :: "string \<Rightarrow> string \<Rightarrow> nat" where
  "common_prefix (x # xs) (y # ys) = (if x = y then Suc (common_prefix xs ys) else 0)"
| "common_prefix _ _ = 0"

definition prefix_ratio :: "string \<Rightarrow> string \<Rightarrow> int" where
  "prefix_ratio q v =
     (if q = [] \<or> v = [] then 0
      else if q = v then 100
      else int (100 * common_prefix q v div max (length q) (length v)))"

text \<open>
  Rows as the loader builds them: the sheet's columns, the year, and the identity key
  computed from the row.
\<close>

definition sample_columns :: "string list" where
  "sample_columns =
     [''Conference Event'', ''Conference location'', ''Country'', ''Start Date'', ''End Date'',
      ''Number of abstracts'', ''Year'', ''conference_id'']"

definition conference :: "cell \<Rightarrow> cell \<Rightarrow> string \<Rightarrow> string \<Rightarrow> row" where
  "conference name place country year =
     (let r = [(''Conference Event'', name), (''Conference location'', place),
               (''Country'', Text country), (''Start Date'', Timestamp 2024 5 1 0 0 0),
               (''End Date'', Timestamp 2024 5 3 0 0 0), (''Number of abstracts'', Number 10),
               (''Year'', Text year)]
      in r @ [(''conference_id'', Text (create_conference_id r))])"

definition nine_rows :: dataframe where
  "nine_rows =
     \<lparr>columns = sample_columns,
      body = [(0, conference (Text ''bb'') (Text ''cc'') ''France'' ''2024''),
              (1, conference (Text ''aa'') (Text ''cc'') ''France'' ''2024''),
              (2, conference (Text ''bb'') (Text ''cc'') ''France'' ''2024''),
              (3, conference (Text ''bb'') (Text ''cc'') ''France'' ''2024''),
              (4, conference (Text ''bb'') (Text ''cc'') ''France'' ''2024''),
              (5, conference (Text ''bb'') (Text ''cc'') ''France'' ''2024''),
              (6, conference (Text ''bb'') (Text ''cc'') ''France'' ''2024''),
              (7, conference (Text ''bb'') (Text ''cc'') ''France'' ''2024''),
              (8, conference (Text ''aa'') (Text ''dd'') ''Spain'' ''2024'')]\<rparr>"

text \<open>A table of three rows; the row under label 1 has no name and no location.\<close>

definition three_rows :: dataframe where
  "three_rows =
     \<lparr>columns = sample_columns,
      body = [(0, conference (Text ''ab'') (Text ''cc'') ''France'' ''2024''),
              (1, conference NaN NaN ''France'' ''2024''),
              (2, conference (Text ''ax'') (Text ''cc'') ''Spain'' ''2023'')]\<rparr>"

text \<open>An iteration order for a set of strings drawn from a known list of keys.\<close>

definition listing_within :: "pystr list \<Rightarrow> pystr set \<Rightarrow> pystr list" where
  "listing_within keys S = filter (\<lambda>k. k \<in> S) (remdups keys)"

text \<open>
  An answer of the json library for the texts that are not arrays of strings. The closed
  examples never consult it: their files hold an array of strings or nothing.
\<close>

definition not_consulted :: "pystr \<Rightarrow> string + loaded" where
  "not_consulted doc = Inr Mixed_members"

text \<open>
  A spreadsheet reader that knows one workbook, with a header sheet and one data sheet,
  and rejects all other bytes; and a date coercion that keeps timestamps and turns every
  other cell into \<^verbatim>\<open>NaT\<close>.
\<close>

definition sheet_2024 :: dataframe where
  "sheet_2024 =
     \<lparr>columns = [''Conference Event'', ''Conference location'', ''Country'', ''Start Date'',
                 ''End Date''],
      body = [(0, [(''Conference Event'', Text ''ab''), (''Conference location'', Text ''cc''),
                   (''Country'', Text ''France''), (''Start Date'', Timestamp 2024 5 1 0 0 0),
                   (''End Date'', Text ''soon'')])]\<rparr>"

definition sample_reader :: "string \<Rightarrow> (string \<times> dataframe) list option" where
  "sample_reader bytes =
     (if bytes = ''workbook-bytes''
      then Some [(''Header'', \<lparr>columns = [''About''], body = [(0, [(''About'', Text ''list'')])]\<rparr>),
                 (''2024'', sheet_2024)]
      else None)"

fun keep_timestamps :: "cell \<Rightarrow> cell" where
  "keep_timestamps (Timestamp y mo d h mi s) = Timestamp y mo d h mi s"
| "keep_timestamps _ = NaT"

section \<open>Evaluating the closed examples\<close>

lemma conference_unfold:
  "conference name place country year =
     [(''Conference Event'', name), (''Conference location'', place),
      (''Country'', Text country), (''Start Date'', Timestamp 2024 5 1 0 0 0),
      (''End Date'', Timestamp 2024 5 3 0 0 0), (''Number of abstracts'', Number 10),
      (''Year'', Text year),
      (''conference_id'', Text (str_of name @ ''|2024-05-01 00:00:00|'' @ str_of place))]"
  by (simp add: conference_def create_conference_id_def get_def zfill_def show_nat.simps)

lemma lower_samples:
  "lower ''aa'' = ''aa''" "lower ''bb'' = ''bb''" "lower ''cc'' = ''cc''" "lower ''dd'' = ''dd''"
  "lower ''ab'' = ''ab''" "lower ''ax'' = ''ax''"
  by (simp_all add: lower_def lower_char_def)

lemma prefix_ratio_samples:
  "prefix_ratio ''aa'' ''aa'' = 100" "prefix_ratio ''aa'' ''bb'' = 0"
  "prefix_ratio ''aa'' ''cc'' = 0" "prefix_ratio ''aa'' ''dd'' = 0"
  "prefix_ratio ''ab'' ''ab'' = 100" "prefix_ratio ''ab'' ''cc'' = 0"
  "prefix_ratio ''ab'' ''ax'' = 50"
  by (simp_all add: prefix_ratio_def numeral_2_eq_2[symmetric])

lemma set_listing_slot_order: "set_listing slot_order"
  by (simp add: set_listing_def slot_order_def)

lemma nine_rows_search:
  "fuzzy_search slot_order prefix_ratio ''aa'' nine_rows
     [''Conference Event'', ''Conference location''] 80 = Inr [8, 1]"
  by (simp add: fuzzy_search_def nine_rows_def conference_unfold column_of_def cell_at_def get_def
      dropna_def lower_samples prefix_ratio_samples slot_order_def sample_columns_def)

lemma nine_rows_filtered:
  "filtered_df slot_order prefix_ratio nine_rows ''aa'' 80 ''All'' ''2024'' =
     Inr \<lparr>columns = sample_columns,
          body = [(8, conference (Text ''aa'') (Text ''dd'') ''Spain'' ''2024''),
                  (1, conference (Text ''aa'') (Text ''cc'') ''France'' ''2024'')]\<rparr>"
  by (simp add: filtered_df_def nine_rows_search loc_def)
     (simp add: nine_rows_def conference_unfold sample_columns_def select_eq_def cell_at_def
        get_def)

lemma three_rows_strict:
  "fuzzy_search slot_order prefix_ratio ''ab'' three_rows
     [''Conference Event'', ''Conference location''] 100 = Inr [0]"
  by (simp add: fuzzy_search_def three_rows_def conference_unfold column_of_def cell_at_def get_def
      dropna_def lower_samples prefix_ratio_samples slot_order_def sample_columns_def)

lemma three_rows_loose:
  "fuzzy_search slot_order prefix_ratio ''ab'' three_rows
     [''Conference Event'', ''Conference location''] 50 = Inr [0, 2]"
  by (simp add: fuzzy_search_def three_rows_def conference_unfold column_of_def cell_at_def get_def
      dropna_def lower_samples prefix_ratio_samples slot_order_def sample_columns_def)

lemma three_rows_searched_columns:
  "set [''Conference Event'', ''Conference location''] \<subseteq> set (columns three_rows)"
  by (simp add: three_rows_def sample_columns_def)

lemma three_rows_null_row:
  "(1, conference NaN NaN ''France'' ''2024'') \<in> set (body three_rows)"
  "\<forall>(j, r) \<in> set (body three_rows). j = 1 \<longrightarrow>
      (\<forall>c \<in> set [''Conference Event'', ''Conference location'']. is_null (cell_at r c))"
  by (simp_all add: three_rows_def conference_unfold cell_at_def get_def)

section \<open>The search loops\<close>

lemma set_scan_values:
  "set (scan_values ratio q t s adds) =
     set adds \<union> {i. \<exists>v. (i, v) \<in> set s \<and> t \<le> ratio (lower q) (lower (str_of v))}"
proof (induction s arbitrary: adds)
  case Nil
  then show ?case by simp
next
  case (Cons p s)
  obtain i v where p: "p = (i, v)" by (cases p)
  show ?case unfolding p by (auto simp: Cons.IH Let_def)
qed

lemma scan_values_mono:
  assumes "t2 \<le> t1" and "set a1 \<subseteq> set a2"
  shows "set (scan_values ratio q t1 s a1) \<subseteq> set (scan_values ratio q t2 s a2)"
  using assms unfolding set_scan_values by fastforce

lemma scan_columns_mono:
  assumes "t2 \<le> t1" and "set a1 \<subseteq> set a2"
  shows "(case (scan_columns ratio q df cols t1 a1, scan_columns ratio q df cols t2 a2) of
           (Inr r1, Inr r2) \<Rightarrow> set r1 \<subseteq> set r2
         | (Inl e1, Inl e2) \<Rightarrow> e1 = e2
         | _ \<Rightarrow> False)"
  using assms
proof (induction cols arbitrary: a1 a2)
  case Nil
  then show ?case by simp
next
  case (Cons c cs)
  show ?case
  proof (cases "column_of df c")
    case (Inl e)
    then show ?thesis by simp
  next
    case (Inr s)
    have "set (scan_values ratio q t1 (dropna s) a1) \<subseteq> set (scan_values ratio q t2 (dropna s) a2)"
      using Cons.prems by (rule scan_values_mono)
    then show ?thesis
      using Inr Cons.IH[OF Cons.prems] Cons.IH[OF Cons.prems(1)] by (simp add: Let_def)
  qed
qed

lemma scan_columns_total:
  "set cols \<subseteq> set (columns df) \<Longrightarrow> \<exists>r. scan_columns ratio q df cols t adds = Inr r"
  by (induction cols arbitrary: adds) (auto simp: column_of_def Let_def)

lemma scan_values_absent:
  "i \<notin> set adds \<Longrightarrow> i \<notin> fst ` set s \<Longrightarrow> i \<notin> set (scan_values ratio q t s adds)"
  unfolding set_scan_values by force

lemma scan_columns_absent:
  assumes "\<forall>(j, r) \<in> set (body df). j = i \<longrightarrow> (\<forall>c \<in> set cols. is_null (cell_at r c))"
    and "i \<notin> set adds" and "scan_columns ratio q df cols t adds = Inr res"
  shows "i \<notin> set res"
  using assms
proof (induction cols arbitrary: adds)
  case Nil
  then show ?case by simp
next
  case (Cons c cs)
  from Cons.prems(3) obtain s where s: "column_of df c = Inr s"
    by (cases "column_of df c") auto
  have sdef: "s = map (\<lambda>(i, r). (i, cell_at r c)) (body df)"
    using s by (auto simp: column_of_def split: if_splits)
  have "i \<notin> fst ` set (dropna s)"
    using Cons.prems(1) by (fastforce simp: sdef dropna_def)
  then have a: "i \<notin> set (scan_values ratio q t (dropna s) adds)"
    using Cons.prems(2) by (simp add: scan_values_absent)
  have h: "\<forall>(j, r) \<in> set (body df). j = i \<longrightarrow> (\<forall>c \<in> set cs. is_null (cell_at r c))"
    using Cons.prems(1) by fastforce
  show ?case
    using Cons.prems(3) Cons.IH[OF h a] Cons.IH[OF h Cons.prems(2)] s
    by (auto simp: Let_def split: if_splits)
qed

text \<open>
  Claim C6. With the empty query the search returns the index labels of all rows of the
  table, one per row and in table order, whatever the columns and the threshold.
\<close>

theorem empty_query_returns_every_key:
  "fuzzy_search order ratio [] df cols t = Inr (frame_index df) \<and>
   length (frame_index df) = length (body df) \<and>
   set (frame_index df) = fst ` set (body df)"
  by (simp add: fuzzy_search_def frame_index_def)

text \<open>
  Claim C7. For a non-empty query and thresholds \<open>t2 \<le> t1\<close>, the search at \<open>t1\<close> and
  the search at \<open>t2\<close> either both return, the labels found at \<open>t1\<close> being among those
  found at \<open>t2\<close>, or both raise the same error (an unknown column).
\<close>

theorem fuzzy_search_threshold_monotone:
  assumes "set_listing order" and "t2 \<le> t1" and "q \<noteq> []"
  shows "(case (fuzzy_search order ratio q df cols t1, fuzzy_search order ratio q df cols t2) of
           (Inr r1, Inr r2) \<Rightarrow> set r1 \<subseteq> set r2
         | (Inl e1, Inl e2) \<Rightarrow> e1 = e2
         | _ \<Rightarrow> False)"
proof -
  have m: "(case (scan_columns ratio q df cols t1 [], scan_columns ratio q df cols t2 []) of
           (Inr r1, Inr r2) \<Rightarrow> set r1 \<subseteq> set r2
         | (Inl e1, Inl e2) \<Rightarrow> e1 = e2
         | _ \<Rightarrow> False)"
    using assms(2) by (rule scan_columns_mono) simp
  have l: "\<And>adds. set (order adds) = set adds"
    using assms(1) by (simp add: set_listing_def)
  show ?thesis
    using m assms(3) by (auto simp: fuzzy_search_def l split: sum.splits)
qed

theorem fuzzy_search_threshold_monotone_witness:
  "set_listing slot_order \<and> (50::int) \<le> 100 \<and> ''ab'' \<noteq> [] \<and>
   fuzzy_search slot_order prefix_ratio ''ab'' three_rows
     [''Conference Event'', ''Conference location''] 100 = Inr [0] \<and>
   fuzzy_search slot_order prefix_ratio ''ab'' three_rows
     [''Conference Event'', ''Conference location''] 50 = Inr [0, 2] \<and>
   set [0::nat] \<subseteq> set [0, 2]"
proof -
  have le: "(50::int) \<le> 100" by simp
  have ne: "''ab'' \<noteq> []" by simp
  show ?thesis
    using fuzzy_search_threshold_monotone[OF set_listing_slot_order le ne, of prefix_ratio
        three_rows "[''Conference Event'', ''Conference location'']"]
      set_listing_slot_order
    by (simp add: three_rows_strict three_rows_loose)
qed

text \<open>
  Claim C10. A row that is null in every searched column is never found by a non-empty
  query, at any threshold (0 included), while the empty query returns its label; so the
  result of a non-empty query differs from the full index whenever the table has such a
  row. The searched columns are columns of the table.
\<close>

theorem null_row_never_matches:
  assumes "set_listing order" and "q \<noteq> []" and "set cols \<subseteq> set (columns df)"
    and "(i, r0) \<in> set (body df)"
    and "\<forall>(j, r) \<in> set (body df). j = i \<longrightarrow> (\<forall>c \<in> set cols. is_null (cell_at r c))"
  shows "(\<exists>res. fuzzy_search order ratio q df cols t = Inr res \<and> i \<notin> set res \<and>
            set res \<noteq> set (frame_index df)) \<and>
         (\<exists>every. fuzzy_search order ratio [] df cols t = Inr every \<and> i \<in> set every)"
proof -
  obtain adds where adds: "scan_columns ratio q df cols t [] = Inr adds"
    using scan_columns_total[OF assms(3)] by blast
  have out: "i \<notin> set adds"
    using scan_columns_absent[OF assms(5) _ adds] by simp
  have l: "set (order adds) = set adds"
    using assms(1) by (simp add: set_listing_def)
  have inside: "i \<in> set (frame_index df)"
    using assms(4) by (force simp: frame_index_def)
  have "fuzzy_search order ratio q df cols t = Inr (order adds)"
    using assms(2) adds by (simp add: fuzzy_search_def)
  moreover have "i \<notin> set (order adds)" using out l by simp
  moreover have "set (order adds) \<noteq> set (frame_index df)" using out l inside by auto
  moreover have "fuzzy_search order ratio [] df cols t = Inr (frame_index df)"
    by (simp add: fuzzy_search_def)
  ultimately show ?thesis using inside by blast
qed

theorem null_row_never_matches_witness:
  "(\<exists>res. fuzzy_search slot_order prefix_ratio ''ab'' three_rows
            [''Conference Event'', ''Conference location''] 0 = Inr res \<and> 1 \<notin> set res \<and>
          set res \<noteq> set (frame_index three_rows)) \<and>
   (\<exists>every. fuzzy_search slot_order prefix_ratio [] three_rows
            [''Conference Event'', ''Conference location''] 0 = Inr every \<and> 1 \<in> set every)"
proof -
  have ne: "''ab'' \<noteq> []" by simp
  show ?thesis
    by (rule null_row_never_matches[OF set_listing_slot_order ne three_rows_searched_columns
          three_rows_null_row])
qed

section \<open>The identity key\<close>

text \<open>
  Claim C8. The identity key is the name, the start date and the location, each as
  \<^verbatim>\<open>str\<close> prints it, joined by vertical bars; two rows that agree on these three
  strings have the same key, whatever their other fields; and for a row whose name
  and location are strings the key is name, bar, start-date string, bar, location.
\<close>

theorem conference_id_from_three_fields:
  "create_conference_id r =
     str_of (get r ''Conference Event'' (Text '''')) @ ''|'' @
     str_of (get r ''Start Date'' (Text '''')) @ ''|'' @
     str_of (get r ''Conference location'' (Text '''')) \<and>
   (str_of (get r1 ''Conference Event'' (Text '''')) = str_of (get r2 ''Conference Event'' (Text '''')) \<and>
    str_of (get r1 ''Start Date'' (Text '''')) = str_of (get r2 ''Start Date'' (Text '''')) \<and>
    str_of (get r1 ''Conference location'' (Text '''')) = str_of (get r2 ''Conference location'' (Text ''''))
    \<longrightarrow> create_conference_id r1 = create_conference_id r2) \<and>
   (map_of r ''Conference Event'' = Some (Text name) \<and> map_of r ''Conference location'' = Some (Text place)
    \<longrightarrow> create_conference_id r = name @ ''|'' @ str_of (get r ''Start Date'' (Text '''')) @ ''|'' @ place)"
  by (simp add: create_conference_id_def get_def)

theorem conference_id_from_three_fields_witness:
  "create_conference_id
     [(''Conference Event'', Text ''EuroConf''), (''Start Date'', Timestamp 2024 5 1 0 0 0),
      (''Conference location'', Text ''Paris''), (''Country'', Text ''France'')] =
   create_conference_id
     [(''Country'', Text ''Spain''), (''Number of abstracts'', Number 12),
      (''Conference location'', Text ''Paris''), (''Conference Event'', Text ''EuroConf''),
      (''Start Date'', Timestamp 2024 5 1 0 0 0)] \<and>
   create_conference_id
     [(''Conference Event'', Text ''EuroConf''), (''Start Date'', Timestamp 2024 5 1 0 0 0),
      (''Conference location'', Text ''Paris''), (''Country'', Text ''France'')] =
   ''EuroConf|2024-05-01 00:00:00|Paris''"
  using conference_id_from_three_fields[of
      "[(''Conference Event'', Text ''EuroConf''), (''Start Date'', Timestamp 2024 5 1 0 0 0),
        (''Conference location'', Text ''Paris''), (''Country'', Text ''France'')]"
      "[(''Conference Event'', Text ''EuroConf''), (''Start Date'', Timestamp 2024 5 1 0 0 0),
        (''Conference location'', Text ''Paris''), (''Country'', Text ''France'')]"
      "[(''Country'', Text ''Spain''), (''Number of abstracts'', Number 12),
        (''Conference location'', Text ''Paris''), (''Conference Event'', Text ''EuroConf''),
        (''Start Date'', Timestamp 2024 5 1 0 0 0)]"
      "''EuroConf''" "''Paris''"]
  by (simp add: create_conference_id_def get_def zfill_def show_nat.simps)

section \<open>The order of the filtered rows\<close>

lemma loc_rows_mset:
  "distinct ls \<Longrightarrow> loc_rows b ls = Inr rows \<Longrightarrow>
     mset rows = mset (filter (\<lambda>(i, r). i \<in> set ls) b)"
proof (induction ls arbitrary: rows)
  case Nil
  then show ?case by simp
next
  case (Cons l ls)
  from Cons.prems(2) obtain rest where rest: "loc_rows b ls = Inr rest"
    and rows: "rows = filter (\<lambda>(i, r). i = l) b @ rest"
    by (auto split: list.splits sum.splits)
  have ih: "mset rest = mset (filter (\<lambda>(i, r). i \<in> set ls) b)"
    using Cons.IH Cons.prems(1) rest by simp
  have "l \<notin> set ls" using Cons.prems(1) by simp
  then have "mset (filter (\<lambda>(i, r). i = l) b) + mset (filter (\<lambda>(i, r). i \<in> set ls) b)
      = mset (filter (\<lambda>(i, r). i \<in> set (l # ls)) b)"
    by (induction b) auto
  then show ?case using rows ih by simp
qed

lemma loc_rows_by_label:
  "loc_rows b ls = Inr rows \<Longrightarrow> rows = rows_by_label b ls"
proof (induction ls arbitrary: rows)
  case Nil
  then show ?case by (simp add: rows_by_label_def)
next
  case (Cons l ls)
  from Cons.prems obtain rest where rest: "loc_rows b ls = Inr rest"
    and rows: "rows = filter (\<lambda>(i, r). i = l) b @ rest"
    by (auto split: list.splits sum.splits)
  have "rest = rows_by_label b ls" using Cons.IH rest by simp
  then show ?case using rows by (simp add: rows_by_label_def)
qed

lemma select_eq_body:
  "select_eq df c s = Inr out \<Longrightarrow> body out = filter (\<lambda>(i, r). cell_at r c = Text s) (body df)"
  by (auto simp: select_eq_def split: if_splits)

lemma rearranged_filter:
  assumes "\<exists>kept. subseq kept b \<and> mset xs = mset kept"
  shows "\<exists>kept. subseq kept b \<and> mset (filter P xs) = mset kept"
proof -
  from assms obtain kept where k: "subseq kept b" "mset xs = mset kept" by blast
  have "subseq (filter P kept) b"
    using k(1) subseq_filter_left subseq_order.order_trans by blast
  moreover have "mset (filter P xs) = mset (filter P kept)"
    using k(2) by (simp add: mset_filter)
  ultimately show ?thesis by blast
qed

lemma country_year_steps:
  assumes "(if country \<noteq> ''All'' then select_eq s1 ''Country'' country else Inr s1) = Inr s2"
    and "(if year \<noteq> ''All'' then select_eq s2 ''Year'' year else Inr s2) = Inr out"
  shows "body out = filter (passes country year) (body s1)"
proof -
  have b2: "body s2 =
      filter (\<lambda>(i, r). country = ''All'' \<or> cell_at r ''Country'' = Text country) (body s1)"
    using assms(1) by (cases "country = ''All''") (auto dest: select_eq_body)
  have b3: "body out =
      filter (\<lambda>(i, r). year = ''All'' \<or> cell_at r ''Year'' = Text year) (body s2)"
    using assms(2) by (cases "year = ''All''") (auto dest: select_eq_body)
  show ?thesis
    unfolding b3 b2 passes_def by (simp add: case_prod_unfold)
qed

text \<open>
  Claim C2, as stated, fails: with a non-empty query the rows come out in the iteration
  order of the Python set of matching labels. In a table of nine rows whose rows 1 and 8
  match, that set lists 8 before 1, and the filtered frame holds row 8 before row 1.
\<close>

theorem filter_order_counterexample:
  "(case filtered_df slot_order prefix_ratio nine_rows ''aa'' 80 ''All'' ''All'' of
      Inl e \<Rightarrow> False
    | Inr out \<Rightarrow> frame_index out = [8, 1] \<and> \<not> subseq (body out) (body nine_rows))"
  by (simp add: filtered_df_def nine_rows_search loc_def)
     (simp add: nine_rows_def frame_index_def conference_unfold)

text \<open>
  Claim C2, amended. The rows of the filtered frame are a rearrangement of a
  subsequence of the table: only rows of the table, none more often than there. With
  the empty query they are exactly the rows that pass the country and year steps, in
  table order. With a non-empty query they are the rows that pass the country and year
  steps among the matching rows, listed label by label in the order in which
  \<^verbatim>\<open>list(matching_indices)\<close> lists the labels the search loops added (the rows of one
  label in table order); that order is the set's and need not be the table's.
\<close>

theorem filtered_rows_follow_listing:
  assumes "set_listing order"
    and "filtered_df order ratio df q t country year = Inr out"
  shows "(\<exists>kept. subseq kept (body df) \<and> mset (body out) = mset kept) \<and>
         (q = [] \<longrightarrow> body out = filter (passes country year) (body df)) \<and>
         (q \<noteq> [] \<longrightarrow>
            (\<exists>adds. scan_columns ratio q df [''Conference Event'', ''Conference location''] t []
                      = Inr adds \<and>
                    body out = filter (passes country year)
                                 (rows_by_label (body df) (order adds))))"
proof -
  define searched where "searched =
     (if q \<noteq> []
      then (case fuzzy_search order ratio q df [''Conference Event'', ''Conference location''] t of
              Inl e \<Rightarrow> Inl e
            | Inr matching_indices \<Rightarrow> loc df matching_indices)
      else Inr df)"
  from assms(2) obtain s1 where s1: "searched = Inr s1"
    unfolding filtered_df_def searched_def by (auto split: sum.splits)
  define by_country where "by_country =
     (if country \<noteq> ''All'' then select_eq s1 ''Country'' country else Inr s1)"
  from assms(2) s1 obtain s2 where s2: "by_country = Inr s2"
    unfolding filtered_df_def searched_def[symmetric] by_country_def by (auto split: sum.splits)
  have s3: "(if year \<noteq> ''All'' then select_eq s2 ''Year'' year else Inr s2) = Inr out"
    using assms(2) s1 s2
    unfolding filtered_df_def searched_def[symmetric] by_country_def by simp
  have out: "body out = filter (passes country year) (body s1)"
    using s2 s3 unfolding by_country_def by (rule country_year_steps)
  have d: "\<And>adds. distinct (order adds)"
    using assms(1) by (simp add: set_listing_def)
  have empty: "q = [] \<Longrightarrow> body s1 = body df"
    using s1 by (simp add: searched_def)
  have listed: "\<exists>adds. scan_columns ratio q df [''Conference Event'', ''Conference location''] t []
                  = Inr adds \<and> loc_rows (body df) (order adds) = Inr (body s1)"
    if "q \<noteq> []"
    using that s1 unfolding searched_def fuzzy_search_def loc_def
    by (auto split: sum.splits)
  have r1: "\<exists>kept. subseq kept (body df) \<and> mset (body s1) = mset kept"
  proof (cases "q = []")
    case True
    then show ?thesis using empty by auto
  next
    case False
    then obtain adds where rows: "loc_rows (body df) (order adds) = Inr (body s1)"
      using listed by blast
    have "mset (body s1) = mset (filter (\<lambda>(i, r). i \<in> set (order adds)) (body df))"
      using loc_rows_mset[OF d rows] .
    then show ?thesis using subseq_filter_left by blast
  qed
  have "\<exists>kept. subseq kept (body df) \<and> mset (body out) = mset kept"
    unfolding out using r1 by (rule rearranged_filter)
  moreover have "q = [] \<longrightarrow> body out = filter (passes country year) (body df)"
    using out empty by simp
  moreover have "q \<noteq> [] \<longrightarrow>
      (\<exists>adds. scan_columns ratio q df [''Conference Event'', ''Conference location''] t []
                = Inr adds \<and>
              body out = filter (passes country year) (rows_by_label (body df) (order adds)))"
  proof
    assume "q \<noteq> []"
    then obtain adds where
      adds: "scan_columns ratio q df [''Conference Event'', ''Conference location''] t []
               = Inr adds"
      and rows: "loc_rows (body df) (order adds) = Inr (body s1)"
      using listed by blast
    have "body s1 = rows_by_label (body df) (order adds)"
      using rows by (rule loc_rows_by_label)
    then have "body out = filter (passes country year) (rows_by_label (body df) (order adds))"
      using out by simp
    then show "\<exists>adds. scan_columns ratio q df [''Conference Event'', ''Conference location''] t []
                = Inr adds \<and>
              body out = filter (passes country year) (rows_by_label (body df) (order adds))"
      using adds by blast
  qed
  ultimately show ?thesis by blast
qed

lemma nine_rows_adds:
  "scan_columns prefix_ratio ''aa'' nine_rows [''Conference Event'', ''Conference location'']
     80 [] = Inr [1, 8]"
  by (simp add: nine_rows_def conference_unfold column_of_def cell_at_def get_def
      dropna_def lower_samples prefix_ratio_samples sample_columns_def)

theorem filtered_rows_follow_listing_witness:
  "set_listing slot_order \<and>
   filtered_df slot_order prefix_ratio nine_rows ''aa'' 80 ''All'' ''2024'' =
     Inr \<lparr>columns = sample_columns,
          body = [(8, conference (Text ''aa'') (Text ''dd'') ''Spain'' ''2024''),
                  (1, conference (Text ''aa'') (Text ''cc'') ''France'' ''2024'')]\<rparr> \<and>
   scan_columns prefix_ratio ''aa'' nine_rows [''Conference Event'', ''Conference location'']
     80 [] = Inr [1, 8] \<and>
   slot_order [1, 8] = [8, 1] \<and>
   [(8, conference (Text ''aa'') (Text ''dd'') ''Spain'' ''2024''),
    (1::nat, conference (Text ''aa'') (Text ''cc'') ''France'' ''2024'')] =
     filter (passes ''All'' ''2024'') (rows_by_label (body nine_rows) (slot_order [1, 8]))"
proof -
  have ne: "''aa'' \<noteq> []" by simp
  have so: "slot_order [1, 8] = [8, 1]" by (simp add: slot_order_def)
  show ?thesis
    using filtered_rows_follow_listing[OF set_listing_slot_order nine_rows_filtered]
      set_listing_slot_order nine_rows_filtered nine_rows_adds so ne
    by simp
qed

section \<open>Writing and reading the pinned file\<close>

lemma hex_val_hex_digit: "d < 16 \<Longrightarrow> hex_val (hex_digit d) = Some d"
  by (simp add: hex_val_def hex_digit_def)

lemma four_digits:
  assumes "(n::nat) < 65536"
  shows "((n div 4096 mod 16 * 16 + n div 256 mod 16) * 16 + n div 16 mod 16) * 16 + n mod 16 = n"
proof -
  define A where "A = n div 4096"
  define B where "B = n div 256 mod 16"
  define C where "C = n div 16 mod 16"
  define D where "D = n mod 16"
  define M where "M = n mod 4096"
  define L where "L = n mod 256"
  have a: "n div 4096 mod 16 = A" using assms by (simp add: A_def)
  have b: "M = 256 * B + L"
    unfolding B_def M_def L_def using mod_mult2_eq[of n 256 16] by simp
  have c: "L = 16 * C + D"
    unfolding C_def D_def L_def using mod_mult2_eq[of n 16 16] by simp
  have d: "n = 4096 * A + M"
    unfolding A_def M_def by simp
  have "((A * 16 + B) * 16 + C) * 16 + D = n"
    unfolding d b c by simp
  then show ?thesis
    unfolding a B_def C_def D_def .
qed

lemma hex4_decodes:
  assumes "n < 65536"
  shows "\<exists>a b c d. hex4 n = [a, b, c, d] \<and> decode_uXXXX a b c d = Some n"
proof -
  have h3: "hex_val (hex_digit (n div 4096 mod 16)) = Some (n div 4096 mod 16)"
    and h2: "hex_val (hex_digit (n div 256 mod 16)) = Some (n div 256 mod 16)"
    and h1: "hex_val (hex_digit (n div 16 mod 16)) = Some (n div 16 mod 16)"
    and h0: "hex_val (hex_digit (n mod 16)) = Some (n mod 16)"
    by (simp_all add: hex_val_hex_digit)
  have "decode_uXXXX (hex_digit (n div 4096 mod 16)) (hex_digit (n div 256 mod 16))
          (hex_digit (n div 16 mod 16)) (hex_digit (n mod 16)) = Some n"
    unfolding decode_uXXXX_def h3 h2 h1 h0
    by (simp only: prod.case option.case four_digits[OF assms])
  then show ?thesis unfolding hex4_def by blast
qed

lemma look_ahead_u_escape:
  assumes "n < 65536"
  shows "look_ahead (u_escape n @ tail) = (if is_low n then Low_surrogate n tail else No_pair)"
proof -
  obtain a b c d where h: "hex4 n = [a, b, c, d]" and v: "decode_uXXXX a b c d = Some n"
    using hex4_decodes[OF assms] by blast
  show ?thesis
    unfolding u_escape_def h by (simp add: look_ahead_def v)
qed

lemma look_ahead_other:
  "look_ahead [] = No_pair"
  "b \<noteq> 92 \<Longrightarrow> look_ahead (b # s) = No_pair"
  "l \<noteq> 117 \<Longrightarrow> look_ahead (b # l # s) = No_pair"
  by (simp_all add: look_ahead_def)

lemma scan_u_escape:
  assumes "n < 65536"
  shows "scanstring (u_escape n @ tail) =
     (if is_high n then
        (case look_ahead tail of
           Low_surrogate u2 rest' \<Rightarrow> prepend (join_surrogates n u2) (scanstring rest')
         | Bad_escape \<Rightarrow> None
         | No_pair \<Rightarrow> prepend n (scanstring tail))
      else prepend n (scanstring tail))"
proof -
  obtain a b c d where h: "hex4 n = [a, b, c, d]" and v: "decode_uXXXX a b c d = Some n"
    using hex4_decodes[OF assms] by blast
  show ?thesis
    unfolding u_escape_def h by (simp add: v)
qed

text \<open>The two escapes of a code point from \<open>0x10000\<close> on are read back as that code point.\<close>

lemma astral_parts:
  assumes "65536 \<le> n" and "n < 1114112"
  shows "55296 + (n - 65536) div 1024 mod 1024 < 65536"
    and "56320 + (n - 65536) mod 1024 < 65536"
    and "is_high (55296 + (n - 65536) div 1024 mod 1024)"
    and "is_low (56320 + (n - 65536) mod 1024)"
    and "join_surrogates (55296 + (n - 65536) div 1024 mod 1024) (56320 + (n - 65536) mod 1024) = n"
proof -
  define v where "v = n - 65536"
  have v: "v < 1048576" "n = 65536 + v" using assms by (simp_all add: v_def)
  have d: "v div 1024 < 1024" using v(1) by simp
  then have m: "v div 1024 mod 1024 = v div 1024" by simp
  have l: "v mod 1024 < 1024" by simp
  show "55296 + (n - 65536) div 1024 mod 1024 < 65536"
    unfolding v_def[symmetric] m using d by simp
  show "56320 + (n - 65536) mod 1024 < 65536"
    unfolding v_def[symmetric] using l by simp
  show "is_high (55296 + (n - 65536) div 1024 mod 1024)"
    unfolding v_def[symmetric] m is_high_def using d by simp
  show "is_low (56320 + (n - 65536) mod 1024)"
    unfolding v_def[symmetric] is_low_def using l by simp
  have "v div 1024 * 1024 + v mod 1024 = v" by simp
  then show "join_surrogates (55296 + (n - 65536) div 1024 mod 1024) (56320 + (n - 65536) mod 1024) = n"
    unfolding v_def[symmetric] m join_surrogates_def using v(2) by simp
qed

lemma scan_u_escape_pair:
  assumes "65536 \<le> n" and "n < 1114112"
  shows "scanstring (u_escape (55296 + (n - 65536) div 1024 mod 1024) @
                     u_escape (56320 + (n - 65536) mod 1024) @ tail) =
         prepend n (scanstring tail)"
proof -
  define hi where "hi = 55296 + (n - 65536) div 1024 mod 1024"
  define lo where "lo = 56320 + (n - 65536) mod 1024"
  have p: "hi < 65536" "lo < 65536" "is_high hi" "is_low lo" "join_surrogates hi lo = n"
    using astral_parts[OF assms] by (simp_all add: hi_def lo_def)
  show ?thesis
    unfolding hi_def[symmetric] lo_def[symmetric]
    by (simp add: scan_u_escape[OF p(1)] look_ahead_u_escape[OF p(2)] p(3) p(4) p(5))
qed

lemma encode_literal:
  "32 \<le> c \<Longrightarrow> c \<le> 126 \<Longrightarrow> c \<noteq> 34 \<Longrightarrow> c \<noteq> 92 \<Longrightarrow> encode_char c = [c]"
  by (simp add: encode_char_def)

lemma encode_bmp:
  "c < 32 \<or> 126 < c \<Longrightarrow> c \<noteq> 8 \<Longrightarrow> c \<noteq> 12 \<Longrightarrow> c \<noteq> 10 \<Longrightarrow> c \<noteq> 13 \<Longrightarrow> c \<noteq> 9 \<Longrightarrow> c < 65536
     \<Longrightarrow> encode_char c = u_escape c"
  by (auto simp: encode_char_def)

lemma encode_astral:
  "65536 \<le> c \<Longrightarrow> encode_char c =
     u_escape (55296 + (c - 65536) div 1024 mod 1024) @ u_escape (56320 + (c - 65536) mod 1024)"
  by (simp add: encode_char_def)

lemma code_point_cases:
  obtains "c = 34" | "c = 92" | "c = 8" | "c = 12" | "c = 10" | "c = 13" | "c = 9"
    | "32 \<le> c" "c \<le> 126" "c \<noteq> 34" "c \<noteq> 92"
    | "c < 32 \<or> 126 < c" "c \<noteq> 8" "c \<noteq> 12" "c \<noteq> 10" "c \<noteq> 13" "c \<noteq> 9" "c < 65536"
    | "65536 \<le> (c::nat)"
  by linarith

lemma scanstring_encode_char:
  assumes "c < 1114112" and "\<not> is_high c"
  shows "scanstring (encode_char c @ tail) = prepend c (scanstring tail)"
proof (cases c rule: code_point_cases)
  case 8
  then show ?thesis by (simp add: encode_literal)
next
  case 9
  then have e: "encode_char c = u_escape c" by (rule encode_bmp)
  show ?thesis unfolding e using assms(2) by (simp add: scan_u_escape[OF 9(7)])
next
  case 10
  show ?thesis
    unfolding encode_astral[OF 10] using scan_u_escape_pair[OF 10 assms(1)] by simp
qed (simp_all add: encode_char_def backslash_def)

text \<open>
  A lone high surrogate is read back as itself when what follows is not the escape of a
  low surrogate: here, the closing quote or the encoding of a code point that is not a
  low surrogate.
\<close>

lemma scan_lone_high:
  assumes "is_high c" and "look_ahead tail = No_pair"
  shows "scanstring (encode_char c @ tail) = prepend c (scanstring tail)"
proof -
  have c: "c < 65536" "c < 32 \<or> 126 < c" "c \<noteq> 8" "c \<noteq> 12" "c \<noteq> 10" "c \<noteq> 13" "c \<noteq> 9"
    using assms(1) by (simp_all add: is_high_def)
  have e: "encode_char c = u_escape c"
    using c(2-7) c(1) by (rule encode_bmp)
  show ?thesis
    unfolding e by (simp add: scan_u_escape[OF c(1)] assms)
qed

lemma look_ahead_after_char:
  assumes "c < 1114112" and "\<not> is_low c"
  shows "look_ahead (encode_char c @ tail) = No_pair"
proof (cases c rule: code_point_cases)
  case 8
  then show ?thesis by (simp add: encode_literal look_ahead_other)
next
  case 9
  then have e: "encode_char c = u_escape c" by (rule encode_bmp)
  show ?thesis unfolding e using assms(2) by (simp add: look_ahead_u_escape[OF 9(7)])
next
  case 10
  have p: "55296 + (c - 65536) div 1024 mod 1024 < 65536"
    "is_high (55296 + (c - 65536) div 1024 mod 1024)"
    using astral_parts[OF 10 assms(1)] by simp_all
  have "\<not> is_low (55296 + (c - 65536) div 1024 mod 1024)"
    using p(2) by (simp add: is_high_def is_low_def)
  then show ?thesis
    unfolding encode_astral[OF 10] by (simp add: look_ahead_u_escape[OF p(1)])
qed (simp_all add: encode_char_def look_ahead_other)

lemma scanstring_encoded_last:
  assumes "a < 1114112"
  shows "scanstring (encode_char a @ 34 # rest) = Some ([a], rest)"
proof -
  have "scanstring (encode_char a @ 34 # rest) = prepend a (scanstring (34 # rest))"
  proof (cases "is_high a")
    case True
    then show ?thesis by (rule scan_lone_high) (simp add: look_ahead_other)
  next
    case False
    with assms show ?thesis by (rule scanstring_encode_char)
  qed
  then show ?thesis by (simp add: prepend_def)
qed

lemma scanstring_encoded:
  assumes "valid_str s" and "no_surrogate_pair s"
  shows "scanstring (concat (map encode_char s) @ 34 # rest) = Some (s, rest)"
  using assms
proof (induction s rule: no_surrogate_pair.induct)
  case (1 a b cs)
  have ih: "scanstring (concat (map encode_char (b # cs)) @ 34 # rest) = Some (b # cs, rest)"
    using 1 by (simp add: valid_str_def)
  have a: "a < 1114112" and b: "b < 1114112" using 1(2) by (simp_all add: valid_str_def)
  define tail where "tail = concat (map encode_char (b # cs)) @ 34 # rest"
  have tail: "tail = encode_char b @ concat (map encode_char cs) @ 34 # rest"
    by (simp add: tail_def)
  have step: "scanstring (encode_char a @ tail) = prepend a (scanstring tail)"
  proof (cases "is_high a")
    case True
    then have "\<not> is_low b" using 1(3) by simp
    then have "look_ahead tail = No_pair"
      unfolding tail using b by (rule look_ahead_after_char[rotated])
    with True show ?thesis by (rule scan_lone_high)
  next
    case False
    with a show ?thesis by (rule scanstring_encode_char)
  qed
  have "concat (map encode_char (a # b # cs)) @ 34 # rest = encode_char a @ tail"
    by (simp add: tail_def)
  then show ?case using step ih by (simp only: tail_def[symmetric] prepend_def option.case prod.case)
qed (simp_all add: scanstring_encoded_last valid_str_def)

lemma skip_ws_nonspace: "\<not> is_ws c \<Longrightarrow> skip_ws (c # cs) = c # cs"
  by (simp add: skip_ws_def)

lemma skip_ws_space: "skip_ws (32 # cs) = skip_ws cs"
  by (simp add: skip_ws_def is_ws_def)

lemma skip_ws_Nil: "skip_ws [] = []"
  by (simp add: skip_ws_def)

lemma join_items_head:
  "\<exists>t. join_items (map encode_string (y # ys)) = 34 # t"
  by (cases ys) (simp_all add: encode_string_def)

lemma parse_items_joined:
  assumes "list_all round_trips (x # xs)"
  shows "parse_items (join_items (map encode_string (x # xs)) @ 93 # rest) = Some (x # xs, rest)"
  using assms
proof (induction xs arbitrary: x)
  case Nil
  then have x: "valid_str x" "no_surrogate_pair x" by (simp_all add: round_trips_def)
  show ?case
    by (subst parse_items.simps)
       (simp add: encode_string_def scanstring_encoded[OF x] skip_ws_nonspace is_ws_def)
next
  case (Cons y ys)
  then have x: "valid_str x" "no_surrogate_pair x" by (simp_all add: round_trips_def)
  have j: "join_items (map encode_string (x # y # ys)) =
             encode_string x @ [44, 32] @ join_items (map encode_string (y # ys))"
    by simp
  obtain t where t: "join_items (map encode_string (y # ys)) = 34 # t"
    using join_items_head by blast
  have ih: "parse_items (34 # t @ 93 # rest) = Some (y # ys, rest)"
    using Cons.IH[of y] Cons.prems t by simp
  show ?case
    unfolding j t
    by (subst parse_items.simps)
       (simp add: encode_string_def scanstring_encoded[OF x] skip_ws_nonspace skip_ws_space
          is_ws_def ih)
qed

lemma json_round_trip:
  assumes "list_all round_trips xs"
  shows "string_array (json_dumps xs) = Some xs"
proof (cases xs)
  case Nil
  then show ?thesis
    by (simp add: string_array_def json_dumps_def skip_ws_nonspace skip_ws_Nil is_ws_def)
next
  case (Cons y ys)
  obtain t where t: "join_items (map encode_string (y # ys)) = 34 # t"
    using join_items_head by blast
  have p: "parse_items (34 # t @ [93]) = Some (y # ys, [])"
    using parse_items_joined[of y ys "[]"] assms t Cons by simp
  show ?thesis
    unfolding Cons string_array_def json_dumps_def t
    by (simp add: skip_ws_nonspace skip_ws_Nil is_ws_def p)
qed

lemma no_pair_without_high:
  "list_all (\<lambda>c. \<not> is_high c) s \<Longrightarrow> no_surrogate_pair s"
  by (induction s rule: no_surrogate_pair.induct) simp_all

lemma of_char_bound: "(of_char c :: nat) < 256"
  by (cases c) simp

lemma round_trips_code_points: "round_trips (code_points s)"
proof -
  have small: "c < 256" if "c \<in> set (code_points s)" for c
    using that of_char_bound by (auto simp: code_points_def)
  have "valid_str (code_points s)"
    unfolding valid_str_def list_all_iff using small by fastforce
  moreover have "list_all (\<lambda>c. \<not> is_high c) (code_points s)"
    unfolding list_all_iff using small by (fastforce simp: is_high_def)
  ultimately show ?thesis
    by (simp add: round_trips_def no_pair_without_high)
qed

lemma string_array_empty: "string_array [] = None"
  by (simp add: string_array_def skip_ws_Nil)

lemma json_dumps_sample:
  "json_dumps [code_points ''a|b'', [8211], [128204]] =
     code_points ''['' @ [34] @ code_points ''a|b'' @ [34] @ code_points '', '' @
     [34, 92] @ code_points ''u2013'' @ [34] @ code_points '', '' @
     [34, 92] @ code_points ''ud83d'' @ [92] @ code_points ''udccc'' @ [34] @
     code_points '']''"
  by (simp add: json_dumps_def encode_string_def encode_char_def code_points_def u_escape_def
      hex4_def hex_digit_def)






text \<open>
  Claim C4, as stated, fails: the file is opened with mode \<^verbatim>\<open>'w'\<close>, which empties it
  before the new text is written. A write that breaks off at once leaves an empty file:
  the set saved before (here one key) is gone, the new set is not there, and the next
  load reports an error and returns the empty set.
\<close>

theorem save_not_atomic_counterexample:
  "load_pinned_conferences not_consulted Opened
     (Some (json_dumps [code_points ''bb|NaT|Paris''])) =
     (Keys {code_points ''bb|NaT|Paris''}, []) \<and>
   save_pinned_conferences
     (listing_within [code_points ''aa|NaT|Rome'', code_points ''bb|NaT|Paris'']) Opened
     (Write_fails 0 ''No space left on device'')
     {code_points ''aa|NaT|Rome'', code_points ''bb|NaT|Paris''}
     (Some (json_dumps [code_points ''bb|NaT|Paris''])) =
     (False, Some [], [''Error saving pinned conferences: No space left on device'']) \<and>
   load_pinned_conferences not_consulted Opened (Some []) =
     (Keys {},
      [''Error loading pinned conferences: Expecting value: line 1 column 1 (char 0)''])"
proof -
  have "string_array (json_dumps [code_points ''bb|NaT|Paris'']) =
      Some [code_points ''bb|NaT|Paris'']"
    by (rule json_round_trip) (simp add: round_trips_code_points)
  then show ?thesis
    by (simp add: save_pinned_conferences_def load_pinned_conferences_def set_of_json_def
        string_array_empty)
qed

text \<open>
  Claim C4, amended. Saving never raises: it returns a flag. It returns True exactly
  when the file was opened and the write completed, and then the file holds the JSON
  array of the set and nothing is reported. Otherwise it returns False and reports the
  error; when the file could not be opened the previous contents are intact, and when
  the write broke off after the file was opened the file holds only the part of the new
  text written so far.
\<close>

theorem save_outcomes:
  "(case save_pinned_conferences listing on_open on_write S old_file of
      (saved, new_file, shown) \<Rightarrow>
        (saved \<longleftrightarrow> on_open = Opened \<and> on_write = Written) \<and>
        (saved \<longrightarrow> new_file = Some (json_dumps (listing S)) \<and> shown = []) \<and>
        (\<not> saved \<longrightarrow> shown \<noteq> []) \<and>
        (on_open \<noteq> Opened \<longrightarrow> new_file = old_file) \<and>
        (on_open = Opened \<and> \<not> saved \<longrightarrow>
           (\<exists>n. new_file = Some (take n (json_dumps (listing S))))))"
  by (auto simp: save_pinned_conferences_def split: open_outcome.splits write_outcome.splits)

theorem save_outcomes_witness:
  "save_pinned_conferences (listing_within [code_points ''aa|NaT|Rome''])
     (Open_fails ''Permission denied'') Written {code_points ''aa|NaT|Rome''}
     (Some (json_dumps [code_points ''bb|NaT|Paris''])) =
     (False, Some (json_dumps [code_points ''bb|NaT|Paris'']),
      [''Error saving pinned conferences: Permission denied'']) \<and>
   save_pinned_conferences (listing_within [code_points ''aa|NaT|Rome'']) Opened Written
     {code_points ''aa|NaT|Rome''} (Some (json_dumps [code_points ''bb|NaT|Paris''])) =
     (True, Some (json_dumps [code_points ''aa|NaT|Rome'']), [])"
  using save_outcomes[where listing = "listing_within [code_points ''aa|NaT|Rome'']"
      and on_open = "Open_fails ''Permission denied''" and on_write = Written
      and S = "{code_points ''aa|NaT|Rome''}"
      and old_file = "Some (json_dumps [code_points ''bb|NaT|Paris''])"]
    save_outcomes[where listing = "listing_within [code_points ''aa|NaT|Rome'']"
      and on_open = Opened and on_write = Written
      and S = "{code_points ''aa|NaT|Rome''}"
      and old_file = "Some (json_dumps [code_points ''bb|NaT|Paris''])"]
  by (simp add: save_pinned_conferences_def listing_within_def)

section \<open>Fetching the workbook: outcomes\<close>

text \<open>
  Claim C3 at a concrete input. The status code of the response is never read: the body
  of a response 404 is written over the stored workbook, and the function, whose except
  branch exists to report a failed download, returns True with the success message.
\<close>

theorem http_error_reported_as_success:
  "download_latest_excel (Inr (Response 404 ''<html>Not Found</html>'')) Opened Written
     (Some ''workbook-bytes'') =
   ((True, ''Successfully downloaded the latest conference list!''),
    Some ''<html>Not Found</html>'')"
  by (simp add: download_latest_excel_def)

text \<open>
  The other outcomes of the fetch: a False flag comes with a message that starts
  \<^verbatim>\<open>Error downloading file: \<close>; when the GET raises or the local file cannot be opened
  the stored file is untouched; when the write breaks off after the file was opened the
  file holds the part of the body written so far.
\<close>

lemma download_outcomes:
  "(case download_latest_excel fetched on_open on_write old_file of
      ((ok, message), new_file) \<Rightarrow>
        (\<not> ok \<longrightarrow> (\<exists>msg. message = ''Error downloading file: '' @ msg)) \<and>
        ((\<exists>msg. fetched = Inl msg) \<or> (\<exists>msg. on_open = Open_fails msg)
           \<longrightarrow> \<not> ok \<and> new_file = old_file) \<and>
        (\<forall>status content n msg.
           fetched = Inr (Response status content) \<and> on_open = Opened \<and>
           on_write = Write_fails n msg
           \<longrightarrow> \<not> ok \<and> new_file = Some (take n content)))"
  by (auto simp: download_latest_excel_def
      split: sum.splits response.splits open_outcome.splits write_outcome.splits)

section \<open>Reconciliation and loading at concrete inputs\<close>

lemma reconcile_replaces:
  assumes "reconcile listing on_open on_write pinned pinned_file display_df edited_df =
             Inr (pinned', file', shown)"
    and "\<not> frame_empty display_df"
  shows "current_pinned display_df edited_df = Inr pinned'"
  using assms
  by (auto simp: reconcile_def split: sum.splits if_splits prod.splits)

text \<open>
  Claim C1 at a concrete input. The key of row 0 of the nine-row table is pinned and
  saved. The user searches for \<^verbatim>\<open>aa\<close>, so only rows 8 and 1 are visible, and touches no
  checkbox: the editor returns the flags it was shown, both unchecked. The set computed
  from the grid is empty, differs from the session's set and replaces it: the pinned key
  of the hidden row is dropped, and the file is overwritten with the empty array.
\<close>

theorem hidden_pin_is_dropped:
  "filtered_df slot_order prefix_ratio nine_rows ''aa'' 80 ''All'' ''2024'' =
     Inr \<lparr>columns = sample_columns,
          body = [(8, conference (Text ''aa'') (Text ''dd'') ''Spain'' ''2024''),
                  (1, conference (Text ''aa'') (Text ''cc'') ''France'' ''2024'')]\<rparr> \<and>
   key_of (conference (Text ''bb'') (Text ''cc'') ''France'' ''2024'') =
     code_points ''bb|2024-05-01 00:00:00|cc'' \<and>
   pin_flags {code_points ''bb|2024-05-01 00:00:00|cc''}
     \<lparr>columns = sample_columns,
      body = [(8, conference (Text ''aa'') (Text ''dd'') ''Spain'' ''2024''),
              (1, conference (Text ''aa'') (Text ''cc'') ''France'' ''2024'')]\<rparr> =
     [(8, False), (1, False)] \<and>
   reconcile (listing_within [code_points ''bb|2024-05-01 00:00:00|cc'']) Opened Written
     {code_points ''bb|2024-05-01 00:00:00|cc''}
     (Some (json_dumps [code_points ''bb|2024-05-01 00:00:00|cc'']))
     \<lparr>columns = sample_columns,
      body = [(8, conference (Text ''aa'') (Text ''dd'') ''Spain'' ''2024''),
              (1, conference (Text ''aa'') (Text ''cc'') ''France'' ''2024'')]\<rparr>
     [(8, False), (1, False)] =
     Inr ({}, Some (json_dumps []), [])"
  by (simp add: nine_rows_filtered reconcile_def current_pinned_def save_pinned_conferences_def
      listing_within_def frame_empty_def pin_flags_def key_of_def code_points_def
      sample_columns_def conference_unfold cell_at_def get_def)

text \<open>
  Claim C5 at concrete inputs. An absent file gives the empty table and a reported
  message. A file whose bytes are not a workbook makes the spreadsheet reader raise, and
  nothing in the loader catches it: the exception leaves the function.
\<close>

theorem unreadable_workbook_raises:
  "load_conference_data sample_reader keep_timestamps None =
     (Inr empty_frame, [''Conference list file not found: conference_list.xlsx'']) \<and>
   load_conference_data sample_reader keep_timestamps (Some ''<html>Not Found</html>'') =
     (Inl (ReaderError ''not a workbook''), [])"
  by (simp add: load_conference_data_def sample_reader_def)

lemma sample_workbook_loads:
  "load_conference_data sample_reader keep_timestamps (Some ''workbook-bytes'') =
     (Inr \<lparr>columns = [''Conference Event'', ''Conference location'', ''Country'', ''Start Date'',
                      ''End Date'', ''Year'', ''conference_id''],
           body = [(0, [(''Conference Event'', Text ''ab''), (''Conference location'', Text ''cc''),
                        (''Country'', Text ''France''), (''Start Date'', Timestamp 2024 5 1 0 0 0),
                        (''End Date'', NaT), (''Year'', Text ''2024''),
                        (''conference_id'', Text ''ab|2024-05-01 00:00:00|cc'')])]\<rparr>, [])"
  by (simp add: load_conference_data_def sample_reader_def sheet_2024_def set_column_def
      concat_frames_def reindex_row_def cell_at_def get_def convert_dates_def
      create_conference_id_def zfill_def show_nat.simps)

end
